theory Spec2Isabelle
  imports Complex_Main "HOL-Library.Word"
begin

section \<open>The jobs table\<close>

text \<open>
  The queue of \<^verbatim>\<open>src/lib/db.ts\<close> is one SQLite table \<^verbatim>\<open>jobs\<close>. A row is a record with
  one field per column. The column \<^verbatim>\<open>status\<close> is TEXT, but the only values ever written are
  the default \<^verbatim>\<open>'waiting'\<close> and the literals \<^verbatim>\<open>'active'\<close>, \<^verbatim>\<open>'completed'\<close> and \<^verbatim>\<open>'failed'\<close> of
  the UPDATE statements, so it is a datatype here; \<open>status_text\<close> gives the literal back.

  Timestamps are the text that \<^verbatim>\<open>datetime('now')\<close> produces (\<^verbatim>\<open>YYYY-MM-DD HH:MM:SS\<close>), compared
  as text by SQLite. That order is the chronological one, so a timestamp is modelled as the
  number of seconds it denotes, and \<^verbatim>\<open>datetime('now', '-N minutes')\<close> is \<open>now - 60 * N\<close>.
  A nullable column is an \<open>option\<close>; a comparison with NULL selects no row.

  The table is a list of rows in rowid order: an INSERT appends.
\<close>

datatype status = Waiting | Active | Completed | Failed

fun status_text :: "status \<Rightarrow> string" where
  "status_text Waiting = ''waiting''"
| "status_text Active = ''active''"
| "status_text Completed = ''completed''"
| "status_text Failed = ''failed''"

text \<open>
  Text that a caller supplies (the type of a job, the serialized payload and result, an
  error message) is a JavaScript string: a sequence of 16-bit code units. The database
  driver hands such a string to SQLite as UTF-8 and builds a string again from the UTF-8
  it reads. A surrogate code unit that is not part of a pair (a high one followed by a low
  one) has no UTF-8 form and is written as U+FFFD. \<open>as_text\<close> is the string that is read
  back from a TEXT column to which a string was bound; \<open>well_formed\<close> says that a
  string has no unpaired surrogate.

  The strings that the program itself writes (SQL and message literals, the UUID, property
  names) are ASCII and are HOL strings; \<open>ascii\<close> gives the code units of one. An id that a
  caller passes is compared with stored UUIDs only.
\<close>

type_synonym js_string = "16 word list"

definition is_high :: "16 word \<Rightarrow> bool" where
  "is_high u = (0xD800 \<le> u \<and> u \<le> 0xDBFF)"

definition is_low :: "16 word \<Rightarrow> bool" where
  "is_low u = (0xDC00 \<le> u \<and> u \<le> 0xDFFF)"

fun as_text :: "js_string \<Rightarrow> js_string" where
  "as_text [] = []"
| "as_text [u] = (if is_high u \<or> is_low u then [0xFFFD] else [u])"
| "as_text (u # v # ws) =
     (if is_high u \<and> is_low v then u # v # as_text ws
      else if is_high u \<or> is_low u then 0xFFFD # as_text (v # ws)
      else u # as_text (v # ws))"


definition ascii :: "string \<Rightarrow> js_string" where
  "ascii s = map of_char s"

record job =
  job_id :: string
  job_type :: js_string
  data :: js_string
  status :: status
  result :: "js_string option"
  error :: "js_string option"
  retried :: int
  created_at :: int
  started_at :: "int option"
  completed_at :: "int option"

text \<open>
  What an operation can throw: a constraint violation of the table (PRIMARY KEY, NOT NULL),
  the SyntaxError of \<^verbatim>\<open>JSON.parse\<close>, and the TypeError of reading \<^verbatim>\<open>.length\<close> of
  \<^verbatim>\<open>undefined\<close>.
\<close>

datatype db_error = SqliteConstraint | JsonSyntaxError | TypeError

text \<open>
  \<^verbatim>\<open>JSON.stringify\<close> and \<^verbatim>\<open>JSON.parse\<close> belong to the language, not to the repository:
  they are parameters. \<open>stringify v = None\<close> stands for the result \<^verbatim>\<open>undefined\<close>, which
  the database driver binds as NULL; \<open>parse s = None\<close> stands for a thrown SyntaxError.
  The clock (\<^verbatim>\<open>datetime('now')\<close>) and the generated identifier (\<^verbatim>\<open>crypto.randomUUID()\<close>) are
  inputs of each operation, and so are the values of \<^verbatim>\<open>config\<close>, taken as natural numbers
  (the defaults are 30 minutes, 1048576 bytes and 30 days).
\<close>

section \<open>Operations of \<^verbatim>\<open>src/lib/db.ts\<close>\<close>

subsection \<open>addJob\<close>

definition new_job :: "string \<Rightarrow> js_string \<Rightarrow> js_string \<Rightarrow> int \<Rightarrow> job" where
  "new_job uuid ty s now =
     \<lparr>job_id = uuid, job_type = as_text ty, data = as_text s, status = Waiting, result = None,
      error = None, retried = 0, created_at = now, started_at = None,
      completed_at = None\<rparr>"

definition addJob ::
  "('j \<Rightarrow> js_string option) \<Rightarrow> string \<Rightarrow> int \<Rightarrow> js_string \<Rightarrow> 'j \<Rightarrow> job list
     \<Rightarrow> db_error + (string \<times> job list)" where
  "addJob stringify uuid now ty d db =
     (case stringify d of
        None \<Rightarrow> Inl SqliteConstraint
      | Some s \<Rightarrow>
          if uuid \<in> set (map job_id db) then Inl SqliteConstraint
          else Inr (uuid, db @ [new_job uuid ty s now]))"

subsection \<open>claimNextJob\<close>

definition timed_out :: "nat \<Rightarrow> int \<Rightarrow> job \<Rightarrow> bool" where
  "timed_out minutes now r =
     (case started_at r of None \<Rightarrow> False | Some t \<Rightarrow> t < now - 60 * int minutes)"

text \<open>The first UPDATE of the transaction: timed-out rows with \<^verbatim>\<open>retried = 0\<close>.\<close>

definition recover_timed_out :: "nat \<Rightarrow> int \<Rightarrow> job list \<Rightarrow> job list" where
  "recover_timed_out minutes now db =
     map (\<lambda>r. if status r = Active \<and> retried r = 0 \<and> timed_out minutes now r
              then r\<lparr>status := Waiting, started_at := None\<rparr> else r) db"

text \<open>The second UPDATE: timed-out rows with \<^verbatim>\<open>retried = 1\<close>.\<close>

definition fail_timed_out :: "nat \<Rightarrow> int \<Rightarrow> job list \<Rightarrow> job list" where
  "fail_timed_out minutes now db =
     map (\<lambda>r. if status r = Active \<and> retried r = 1 \<and> timed_out minutes now r
              then r\<lparr>status := Failed, error := Some (ascii ''Timed out after retry''),
                     completed_at := Some now\<rparr>
              else r) db"

text \<open>
  The SELECT: \<^verbatim>\<open>WHERE status = 'waiting' ORDER BY created_at LIMIT 1\<close>. Among rows of equal
  \<^verbatim>\<open>created_at\<close> the store decides; the stable sort takes the one of least rowid.
\<close>

definition next_waiting :: "job list \<Rightarrow> job option" where
  "next_waiting db =
     (case sort_key created_at (filter (\<lambda>r. status r = Waiting) db) of
        [] \<Rightarrow> None
      | r # _ \<Rightarrow> Some r)"

text \<open>The third UPDATE: \<^verbatim>\<open>WHERE id = ?\<close>.\<close>

definition mark_active :: "string \<Rightarrow> int \<Rightarrow> job list \<Rightarrow> job list" where
  "mark_active i now db =
     map (\<lambda>r. if job_id r = i
              then r\<lparr>status := Active, started_at := Some now, retried := retried r + 1\<rparr>
              else r) db"

record 'j claimed =
  claimed_id :: string
  claimed_type :: js_string
  claimed_data :: 'j

text \<open>
  The transaction. \<^verbatim>\<open>JSON.parse\<close> runs inside it, so a SyntaxError rolls every UPDATE back:
  the table is the one the call started with.
\<close>

definition claimNextJob ::
  "(js_string \<Rightarrow> 'j option) \<Rightarrow> nat \<Rightarrow> int \<Rightarrow> job list
     \<Rightarrow> (db_error + 'j claimed option) \<times> job list" where
  "claimNextJob parse timeoutMinutes now db =
     (let db1 = recover_timed_out timeoutMinutes now db;
          db2 = fail_timed_out timeoutMinutes now db1
      in case next_waiting db2 of
           None \<Rightarrow> (Inr None, db2)
         | Some j \<Rightarrow>
             (let db3 = mark_active (job_id j) now db2
              in case parse (data j) of
                   None \<Rightarrow> (Inl JsonSyntaxError, db)
                 | Some v \<Rightarrow>
                     (Inr (Some \<lparr>claimed_id = job_id j, claimed_type = job_type j,
                                 claimed_data = v\<rparr>), db3)))"

subsection \<open>completeJob and failJob\<close>

text \<open>Both are one conditional UPDATE; the result is \<^verbatim>\<open>info.changes > 0\<close>.\<close>

definition completeJob ::
  "('j \<Rightarrow> js_string option) \<Rightarrow> int \<Rightarrow> string \<Rightarrow> 'j \<Rightarrow> job list \<Rightarrow> bool \<times> job list" where
  "completeJob stringify now i res db =
     (0 < length (filter (\<lambda>r. job_id r = i \<and> status r = Active) db),
      map (\<lambda>r. if job_id r = i \<and> status r = Active
               then r\<lparr>status := Completed, result := map_option as_text (stringify res),
                      completed_at := Some now\<rparr>
               else r) db)"

definition failJob :: "int \<Rightarrow> string \<Rightarrow> js_string \<Rightarrow> job list \<Rightarrow> bool \<times> job list" where
  "failJob now i e db =
     (0 < length (filter (\<lambda>r. job_id r = i \<and> status r = Active) db),
      map (\<lambda>r. if job_id r = i \<and> status r = Active
               then r\<lparr>status := Failed, error := Some (as_text e),
                      completed_at := Some now\<rparr>
               else r) db)"

subsection \<open>cleanupOldJobs\<close>

text \<open>
  The DELETE: \<^verbatim>\<open>status IN ('completed', 'failed') AND completed_at < datetime('now', '-N days')\<close>.
  The result is \<^verbatim>\<open>info.changes\<close>, the number of rows deleted.
\<close>

definition aged_terminal :: "nat \<Rightarrow> int \<Rightarrow> job \<Rightarrow> bool" where
  "aged_terminal days now r =
     ((status r = Completed \<or> status r = Failed) \<and>
      (case completed_at r of None \<Rightarrow> False | Some t \<Rightarrow> t < now - 86400 * int days))"

definition cleanupOldJobs :: "nat \<Rightarrow> int \<Rightarrow> job list \<Rightarrow> nat \<times> job list" where
  "cleanupOldJobs days now db =
     (length (filter (aged_terminal days now) db),
      filter (\<lambda>r. \<not> aged_terminal days now r) db)"

subsection \<open>getJobCounts\<close>

text \<open>
  \<^verbatim>\<open>SELECT status, COUNT(*) ... GROUP BY status\<close> gives one row for each status that occurs.
  The returned object is the four defaults overwritten by those rows; it is a finite map
  from property names to numbers. The function only reads: it takes the table and returns
  the object, and there is no table to return.
\<close>

definition count_rows :: "job list \<Rightarrow> (string \<times> nat) list" where
  "count_rows db =
     map (\<lambda>s. (status_text s, length (filter (\<lambda>r. status r = s) db)))
       (remdups (map status db))"

definition getJobCounts :: "job list \<Rightarrow> (string \<rightharpoonup> nat)" where
  "getJobCounts db =
     [''waiting'' \<mapsto> 0, ''active'' \<mapsto> 0, ''completed'' \<mapsto> 0, ''failed'' \<mapsto> 0]
       ++ map_of (count_rows db)"

section \<open>Validation (\<^verbatim>\<open>src/lib/validation.ts\<close>) and the POST route\<close>

text \<open>
  A request body is a JavaScript value. The body of a request is the result of parsing JSON,
  so its numbers are finite; a number is a real here and no function below inspects one
  beyond its truthiness. An object is its list of properties, and \<open>get_property\<close> reads a
  property the way the destructuring \<^verbatim>\<open>const { type, data } = body\<close> does: a missing one
  is \<^verbatim>\<open>undefined\<close>. It is used for the names \<^verbatim>\<open>type\<close> and \<^verbatim>\<open>data\<close> only, which no array has.
  The \<^verbatim>\<open>length\<close> of a string is the number of its code units.
\<close>

datatype js =
    JUndefined
  | JNull
  | JBool bool
  | JNum real
  | JStr js_string
  | JArr "js list"
  | JObj "(string \<times> js) list"

fun truthy :: "js \<Rightarrow> bool" where
  "truthy JUndefined = False"
| "truthy JNull = False"
| "truthy (JBool b) = b"
| "truthy (JNum x) = (x \<noteq> 0)"
| "truthy (JStr s) = (s \<noteq> [])"
| "truthy (JArr xs) = True"
| "truthy (JObj kvs) = True"

fun typeof :: "js \<Rightarrow> string" where
  "typeof JUndefined = ''undefined''"
| "typeof JNull = ''object''"
| "typeof (JBool b) = ''boolean''"
| "typeof (JNum x) = ''number''"
| "typeof (JStr s) = ''string''"
| "typeof (JArr xs) = ''object''"
| "typeof (JObj kvs) = ''object''"

fun get_property :: "js \<Rightarrow> string \<Rightarrow> js" where
  "get_property (JObj kvs) k = (case map_of kvs k of None \<Rightarrow> JUndefined | Some v \<Rightarrow> v)"
| "get_property v k = JUndefined"

fun decimal :: "nat \<Rightarrow> string" where
  "decimal n =
     (if n < 10 then [char_of (48 + n)]
      else decimal (n div 10) @ [char_of (48 + n mod 10)])"

declare decimal.simps [simp del]

datatype validation_result = Ok_result js_string js | Error_result string

text \<open>
  Past the check of \<^verbatim>\<open>type\<close> the value is a non-empty string; \<open>string_of\<close> reads it.
  \<^verbatim>\<open>JSON.stringify(data)\<close> is a string for every value that came out of a JSON body; were
  it \<^verbatim>\<open>undefined\<close>, reading its \<^verbatim>\<open>length\<close> would throw.
\<close>

fun string_of :: "js \<Rightarrow> js_string" where
  "string_of (JStr s) = s"
| "string_of v = []"

definition validateJobInput ::
  "(js \<Rightarrow> js_string option) \<Rightarrow> nat \<Rightarrow> js \<Rightarrow> db_error + validation_result" where
  "validateJobInput stringify maxPayloadBytes body =
     (if \<not> truthy body \<or> typeof body \<noteq> ''object''
      then Inr (Error_result ''Request body must be an object'')
      else
        let ty = get_property body ''type''; d = get_property body ''data''
        in if \<not> truthy ty \<or> typeof ty \<noteq> ''string''
           then Inr (Error_result ''type must be a non-empty string'')
           else if length (string_of ty) > 100
           then Inr (Error_result ''type must be 100 characters or less'')
           else if d = JUndefined
           then Inr (Error_result ''data is required'')
           else case stringify d of
                  None \<Rightarrow> Inl TypeError
                | Some dataStr \<Rightarrow>
                    if length dataStr > maxPayloadBytes
                    then Inr (Error_result
                           (''data exceeds '' @ decimal maxPayloadBytes @ '' bytes''))
                    else Inr (Ok_result (string_of ty) d))"

text \<open>
  The POST handler of \<^verbatim>\<open>src/app/api/queue/route.ts\<close>. The body is \<open>None\<close> when
  \<^verbatim>\<open>request.json()\<close> throws. The responses are 400 with an error message and 201 with the
  new id (and the status \<^verbatim>\<open>waiting\<close>).
\<close>

datatype response = Bad_request string | Created string

definition POST ::
  "(js \<Rightarrow> js_string option) \<Rightarrow> nat \<Rightarrow> string \<Rightarrow> int \<Rightarrow> js option \<Rightarrow> job list
     \<Rightarrow> (db_error + response) \<times> job list" where
  "POST stringify maxPayloadBytes uuid now request db =
     (case request of
        None \<Rightarrow> (Inr (Bad_request ''Invalid JSON''), db)
      | Some body \<Rightarrow>
          (case validateJobInput stringify maxPayloadBytes body of
             Inl e \<Rightarrow> (Inl e, db)
           | Inr (Error_result msg) \<Rightarrow> (Inr (Bad_request msg), db)
           | Inr (Ok_result ty d) \<Rightarrow>
               (case addJob stringify uuid now ty d db of
                  Inl e \<Rightarrow> (Inl e, db)
                | Inr (i, db') \<Rightarrow> (Inr (Created i), db'))))"

section \<open>Sequences of calls\<close>

text \<open>
  A reachable table is what a sequence of calls of the five operations leaves, started on
  the empty table. Each call carries its arguments and the clock value and identifier it
  draws. A call that throws leaves the table as it was.
\<close>

datatype 'j operation =
    Insert string int js_string 'j
  | Claim int
  | Complete int string 'j
  | Fail int string js_string
  | Sweep int

fun apply_operation ::
  "('j \<Rightarrow> js_string option) \<Rightarrow> (js_string \<Rightarrow> 'j option) \<Rightarrow> nat \<Rightarrow> nat
     \<Rightarrow> 'j operation \<Rightarrow> job list \<Rightarrow> job list" where
  "apply_operation stringify parse minutes days (Insert uuid now ty d) db =
     (case addJob stringify uuid now ty d db of Inl e \<Rightarrow> db | Inr (i, db') \<Rightarrow> db')"
| "apply_operation stringify parse minutes days (Claim now) db =
     snd (claimNextJob parse minutes now db)"
| "apply_operation stringify parse minutes days (Complete now i res) db =
     snd (completeJob stringify now i res db)"
| "apply_operation stringify parse minutes days (Fail now i e) db =
     snd (failJob now i e db)"
| "apply_operation stringify parse minutes days (Sweep now) db =
     snd (cleanupOldJobs days now db)"

fun run_from ::
  "('j \<Rightarrow> js_string option) \<Rightarrow> (js_string \<Rightarrow> 'j option) \<Rightarrow> nat \<Rightarrow> nat
     \<Rightarrow> 'j operation list \<Rightarrow> job list \<Rightarrow> job list" where
  "run_from stringify parse minutes days [] db = db"
| "run_from stringify parse minutes days (c # cs) db =
     run_from stringify parse minutes days cs
       (apply_operation stringify parse minutes days c db)"

definition run ::
  "('j \<Rightarrow> js_string option) \<Rightarrow> (js_string \<Rightarrow> 'j option) \<Rightarrow> nat \<Rightarrow> nat
     \<Rightarrow> 'j operation list \<Rightarrow> job list" where
  "run stringify parse minutes days cs = run_from stringify parse minutes days cs []"

text \<open>
  How often the job that now carries the id \<open>i\<close> has been handed to a worker in a sequence
  of calls: a call of \<open>claimNextJob\<close> that returns the id counts one, and the count starts
  again when a row with this id is inserted (which the primary key allows only when no
  such row is in the table).
\<close>

definition hands_out ::
  "(js_string \<Rightarrow> 'j option) \<Rightarrow> nat \<Rightarrow> string \<Rightarrow> 'j operation \<Rightarrow> job list \<Rightarrow> bool" where
  "hands_out parse minutes i c db =
     (case c of
        Claim now \<Rightarrow>
          (case fst (claimNextJob parse minutes now db) of
             Inr (Some j) \<Rightarrow> claimed_id j = i
           | _ \<Rightarrow> False)
      | _ \<Rightarrow> False)"

definition creates ::
  "('j \<Rightarrow> js_string option) \<Rightarrow> string \<Rightarrow> 'j operation \<Rightarrow> job list \<Rightarrow> bool" where
  "creates stringify i c db =
     (case c of
        Insert uuid now ty d \<Rightarrow>
          (case addJob stringify uuid now ty d db of Inl e \<Rightarrow> False | Inr r \<Rightarrow> uuid = i)
      | _ \<Rightarrow> False)"

fun claims_from ::
  "('j \<Rightarrow> js_string option) \<Rightarrow> (js_string \<Rightarrow> 'j option) \<Rightarrow> nat \<Rightarrow> nat \<Rightarrow> string
     \<Rightarrow> 'j operation list \<Rightarrow> job list \<Rightarrow> nat \<Rightarrow> nat" where
  "claims_from stringify parse minutes days i [] db n = n"
| "claims_from stringify parse minutes days i (c # cs) db n =
     claims_from stringify parse minutes days i cs
       (apply_operation stringify parse minutes days c db)
       (if creates stringify i c db then 0
        else if hands_out parse minutes i c db then n + 1 else n)"

definition claims_of ::
  "('j \<Rightarrow> js_string option) \<Rightarrow> (js_string \<Rightarrow> 'j option) \<Rightarrow> nat \<Rightarrow> nat \<Rightarrow> string
     \<Rightarrow> 'j operation list \<Rightarrow> nat" where
  "claims_of stringify parse minutes days i cs =
     claims_from stringify parse minutes days i cs [] 0"

text \<open>
  The shape of a row in a reachable table, used in the proofs below: a waiting row has
  never been started and has \<open>retried = 0\<close>; any other row has been started and has
  \<open>retried = 1\<close>. Identifiers are unique (the primary key).
\<close>

definition row_ok :: "job \<Rightarrow> bool" where
  "row_ok r =
     (if status r = Waiting then retried r = 0 \<and> started_at r = None
      else retried r = 1 \<and> started_at r \<noteq> None)"

definition table_ok :: "job list \<Rightarrow> bool" where
  "table_ok db = (distinct (map job_id db) \<and> list_all row_ok db)"



section \<open>Code units of stored text\<close>


lemma unat_of_char: "unat (of_char c :: 16 word) = of_char c"
proof -
  have "(of_char c :: nat) < 2 ^ 16"
    by (rule less_trans [OF nat_of_char_less_256]) simp
  then have "unat (of_nat (of_char c) :: 16 word) = of_char c"
    by (simp add: unat_of_nat)
  then show ?thesis by (simp only: of_nat_of_char)
qed

lemma of_char_below: "256 \<le> unat w \<Longrightarrow> \<not> w \<le> (of_char c :: 16 word)"
proof
  assume big: "256 \<le> unat w" and "w \<le> (of_char c :: 16 word)"
  then have "unat w \<le> unat (of_char c :: 16 word)"
    by (simp only: word_le_nat_alt)
  then have "unat w \<le> of_char c"
    by (simp only: unat_of_char)
  moreover have "(of_char c :: nat) < 256" by (rule nat_of_char_less_256)
  ultimately show False using big by linarith
qed

lemma not_surrogate_of_char: "\<not> is_high (of_char c) \<and> \<not> is_low (of_char c)"
proof -
  have "\<not> 0xD800 \<le> (of_char c :: 16 word)" by (rule of_char_below) simp
  moreover have "\<not> 0xDC00 \<le> (of_char c :: 16 word)" by (rule of_char_below) simp
  ultimately show ?thesis by (simp add: is_high_def is_low_def)
qed

lemma no_surrogates_as_text:
  "\<forall>u \<in> set ws. \<not> is_high u \<and> \<not> is_low u \<Longrightarrow> as_text ws = ws"
  by (induction ws rule: as_text.induct) auto

lemma as_text_ascii [simp]: "as_text (ascii s) = ascii s"
  by (rule no_surrogates_as_text) (auto simp: ascii_def not_surrogate_of_char)

lemma inj_of_char16: "(of_char c :: 16 word) = of_char d \<Longrightarrow> c = d"
proof -
  assume "(of_char c :: 16 word) = of_char d"
  then have "unat (of_char c :: 16 word) = unat (of_char d :: 16 word)" by simp
  then have "(of_char c :: nat) = of_char d" by (simp only: unat_of_char)
  then show "c = d" by simp
qed

lemma ascii_eq_iff [simp]: "(ascii s = ascii t) = (s = t)"
  unfolding ascii_def using inj_of_char16 by (metis inj_map_eq_map injI)

section \<open>Completion of a job that is not active\<close>

lemma map_if_never: "(\<And>r. r \<in> set db \<Longrightarrow> \<not> P r) \<Longrightarrow> map (\<lambda>r. if P r then f r else r) db = db"
  by (induction db) auto

lemma filter_never: "(\<And>r. r \<in> set db \<Longrightarrow> \<not> P r) \<Longrightarrow> filter P db = []"
  by (induction db) auto

text \<open>
  Claim C5. When no row of the table has the given id and status active (the id is unknown,
  or its job is waiting, completed or failed), \<open>completeJob\<close> and \<open>failJob\<close> both return
  false and the table after the call is the table before it, row by row and field by field.
\<close>

theorem complete_fail_not_active:
  assumes "\<forall>r \<in> set db. job_id r = i \<longrightarrow> status r \<noteq> Active"
  shows "completeJob stringify now i res db = (False, db)
       \<and> failJob now i e db = (False, db)"
proof -
  have never: "\<And>r. r \<in> set db \<Longrightarrow> \<not> (job_id r = i \<and> status r = Active)"
    using assms by blast
  have "filter (\<lambda>r. job_id r = i \<and> status r = Active) db = []"
    using never by (rule filter_never)
  moreover have "map (\<lambda>r. if job_id r = i \<and> status r = Active
               then r\<lparr>status := Completed, result := map_option as_text (stringify res),
                      completed_at := Some now\<rparr>
               else r) db = db"
    using never by (rule map_if_never)
  moreover have "map (\<lambda>r. if job_id r = i \<and> status r = Active
               then r\<lparr>status := Failed, error := Some (as_text e),
                      completed_at := Some now\<rparr>
               else r) db = db"
    using never by (rule map_if_never)
  ultimately show ?thesis
    by (simp add: completeJob_def failJob_def)
qed

theorem complete_fail_not_active_witness:
  "map status [new_job ''a'' (ascii ''mail'') (ascii ''1'') 0] = [Waiting]
   \<and> completeJob Some 5 ''a'' (ascii ''2'') [new_job ''a'' (ascii ''mail'') (ascii ''1'') 0]
       = (False, [new_job ''a'' (ascii ''mail'') (ascii ''1'') 0])
   \<and> failJob 5 ''a'' (ascii ''boom'') [new_job ''a'' (ascii ''mail'') (ascii ''1'') 0]
       = (False, [new_job ''a'' (ascii ''mail'') (ascii ''1'') 0])
   \<and> completeJob Some 5 ''b'' (ascii ''2'') [new_job ''a'' (ascii ''mail'') (ascii ''1'') 0]
       = (False, [new_job ''a'' (ascii ''mail'') (ascii ''1'') 0])"
proof -
  have h: "\<forall>r \<in> set [new_job ''a'' (ascii ''mail'') (ascii ''1'') 0]. job_id r = i \<longrightarrow> status r \<noteq> Active"
    for i by (simp add: new_job_def)
  have s: "map status [new_job ''a'' (ascii ''mail'') (ascii ''1'') 0] = [Waiting]"
    by (simp add: new_job_def)
  show ?thesis
    using s complete_fail_not_active [OF h [of "''a''"], of Some 5 "ascii ''2''" "ascii ''boom''"]
      complete_fail_not_active [OF h [of "''b''"], of Some 5 "ascii ''2''" "ascii ''boom''"]
    by blast
qed

section \<open>The selected row and the shape of reachable tables\<close>

lemma next_waiting_Some:
  assumes "next_waiting db = Some j"
  shows "j \<in> set db \<and> status j = Waiting
       \<and> (\<forall>r \<in> set db. status r = Waiting \<longrightarrow> created_at j \<le> created_at r)"
proof -
  let ?ws = "filter (\<lambda>r. status r = Waiting) db"
  from assms obtain rest where s: "sort_key created_at ?ws = j # rest"
    by (auto simp: next_waiting_def split: list.splits)
  have "set (sort_key created_at ?ws) = set ?ws" by simp
  with s have mem: "j \<in> set ?ws" by (metis list.set_intros(1))
  have "sorted (map created_at (sort_key created_at ?ws))" by (rule sorted_sort_key)
  with s have "\<forall>x \<in> set rest. created_at j \<le> created_at x" by simp
  moreover have "set ?ws = insert j (set rest)"
    using s by (metis list.simps(15) set_sort)
  ultimately have "\<forall>r \<in> set ?ws. created_at j \<le> created_at r" by auto
  with mem show ?thesis by auto
qed

lemma next_waiting_None:
  "next_waiting db = None \<Longrightarrow> r \<in> set db \<Longrightarrow> status r \<noteq> Waiting"
proof -
  assume a: "next_waiting db = None" and m: "r \<in> set db"
  let ?ws = "filter (\<lambda>r. status r = Waiting) db"
  from a have "sort_key created_at ?ws = []"
    by (auto simp: next_waiting_def split: list.splits)
  then have "set (sort_key created_at ?ws) = {}" by simp
  then have "set ?ws = {}" by simp
  with m show ?thesis by auto
qed

lemma ids_map_if:
  "(\<And>r. job_id (f r) = job_id r) \<Longrightarrow> map job_id (map (\<lambda>r. if P r then f r else r) db) = map job_id db"
  by (induction db) auto

lemma ids_recover: "map job_id (recover_timed_out m now db) = map job_id db"
  unfolding recover_timed_out_def by (rule ids_map_if) simp

lemma ids_fail_timed_out: "map job_id (fail_timed_out m now db) = map job_id db"
  unfolding fail_timed_out_def by (rule ids_map_if) simp

lemma ids_mark_active: "map job_id (mark_active i now db) = map job_id db"
  unfolding mark_active_def by (rule ids_map_if) simp

lemma table_ok_recover: "table_ok db \<Longrightarrow> table_ok (recover_timed_out m now db)"
  unfolding table_ok_def ids_recover
  by (auto simp: recover_timed_out_def list_all_iff row_ok_def)

lemma table_ok_fail_timed_out: "table_ok db \<Longrightarrow> table_ok (fail_timed_out m now db)"
  unfolding table_ok_def ids_fail_timed_out
  by (auto simp: fail_timed_out_def list_all_iff row_ok_def)

lemma table_ok_mark_active:
  assumes "table_ok db" and "j \<in> set db" and "status j = Waiting"
  shows "table_ok (mark_active (job_id j) now db)"
proof -
  have d: "distinct (map job_id db)" using assms(1) by (simp add: table_ok_def)
  have only: "\<And>r. r \<in> set db \<Longrightarrow> job_id r = job_id j \<Longrightarrow> r = j"
    using d assms(2) by (meson distinct_map inj_onD)
  have "row_ok j" using assms(1,2) by (simp add: table_ok_def list_all_iff)
  with assms(3) have "retried j = 0" by (simp add: row_ok_def)
  have "row_ok (if job_id r = job_id j
              then r\<lparr>status := Active, started_at := Some now, retried := retried r + 1\<rparr>
              else r)" if "r \<in> set db" for r
  proof (cases "job_id r = job_id j")
    case True
    with only that have "r = j" by blast
    with True \<open>retried j = 0\<close> show ?thesis by (simp add: row_ok_def)
  next
    case False
    with that assms(1) show ?thesis by (simp add: table_ok_def list_all_iff)
  qed
  then have "list_all row_ok (mark_active (job_id j) now db)"
    unfolding mark_active_def list_all_iff set_map by blast
  with d show ?thesis
    by (simp add: table_ok_def ids_mark_active)
qed

lemma table_ok_claim: "table_ok db \<Longrightarrow> table_ok (snd (claimNextJob parse m now db))"
proof -
  assume ok: "table_ok db"
  let ?db2 = "fail_timed_out m now (recover_timed_out m now db)"
  have ok2: "table_ok ?db2"
    using ok by (intro table_ok_fail_timed_out table_ok_recover)
  show ?thesis
  proof (cases "next_waiting ?db2")
    case None
    then show ?thesis using ok2 by (simp add: claimNextJob_def)
  next
    case (Some j)
    then have "j \<in> set ?db2" and "status j = Waiting"
      using next_waiting_Some by blast+
    then have "table_ok (mark_active (job_id j) now ?db2)"
      using ok2 by (intro table_ok_mark_active)
    then show ?thesis
      using Some ok by (simp add: claimNextJob_def split: option.splits)
  qed
qed

lemma table_ok_add:
  "table_ok db \<Longrightarrow> addJob stringify uuid now ty d db = Inr (i, db') \<Longrightarrow> table_ok db'"
  by (auto simp: addJob_def table_ok_def new_job_def row_ok_def split: option.splits if_splits)

lemma table_ok_complete: "table_ok db \<Longrightarrow> table_ok (snd (completeJob stringify now i res db))"
  unfolding table_ok_def completeJob_def snd_conv
  by (subst ids_map_if) (auto simp: list_all_iff row_ok_def)

lemma table_ok_fail: "table_ok db \<Longrightarrow> table_ok (snd (failJob now i e db))"
  unfolding table_ok_def failJob_def snd_conv
  by (subst ids_map_if) (auto simp: list_all_iff row_ok_def)

lemma table_ok_cleanup: "table_ok db \<Longrightarrow> table_ok (snd (cleanupOldJobs days now db))"
  by (auto simp: table_ok_def cleanupOldJobs_def list_all_iff distinct_map_filter)

lemma table_ok_apply:
  "table_ok db \<Longrightarrow> table_ok (apply_operation stringify parse m days c db)"
proof (cases c)
  case (Insert uuid now ty d)
  assume "table_ok db"
  then show ?thesis using Insert table_ok_add [of db stringify uuid now ty d]
    by (auto split: sum.splits)
qed (simp_all add: table_ok_claim table_ok_complete table_ok_fail table_ok_cleanup)

lemma table_ok_run_from:
  "table_ok db \<Longrightarrow> table_ok (run_from stringify parse m days cs db)"
  by (induction cs arbitrary: db) (simp_all add: table_ok_apply)

lemma table_ok_run: "table_ok (run stringify parse m days cs)"
  unfolding run_def by (rule table_ok_run_from) (simp add: table_ok_def)

lemma keeps_map_if:
  assumes "\<And>r. job_id (f r) = job_id r \<and> retried (f r) = retried r
            \<and> job_type (f r) = job_type r \<and> data (f r) = data r"
    and "r' \<in> set (map (\<lambda>r. if P r then f r else r) db)"
  shows "\<exists>r \<in> set db. job_id r = job_id r' \<and> retried r = retried r'
            \<and> job_type r = job_type r' \<and> data r = data r'"
proof -
  from assms(2) obtain r where "r \<in> set db" and "r' = (if P r then f r else r)"
    by auto
  with assms(1) show ?thesis by (cases "P r") auto
qed

lemma keeps_recover:
  "r' \<in> set (recover_timed_out m now db) \<Longrightarrow> \<exists>r \<in> set db. job_id r = job_id r' \<and> retried r = retried r'
            \<and> job_type r = job_type r' \<and> data r = data r'"
  unfolding recover_timed_out_def by (erule keeps_map_if [rotated]) simp

lemma keeps_fail_timed_out:
  "r' \<in> set (fail_timed_out m now db) \<Longrightarrow> \<exists>r \<in> set db. job_id r = job_id r' \<and> retried r = retried r'
            \<and> job_type r = job_type r' \<and> data r = data r'"
  unfolding fail_timed_out_def by (erule keeps_map_if [rotated]) simp

lemma keeps_recovery:
  assumes "r' \<in> set (fail_timed_out m now (recover_timed_out m now db))"
  shows "\<exists>r \<in> set db. job_id r = job_id r' \<and> retried r = retried r'
            \<and> job_type r = job_type r' \<and> data r = data r'"
proof -
  from keeps_fail_timed_out [OF assms] obtain r1
    where "r1 \<in> set (recover_timed_out m now db)" "job_id r1 = job_id r'"
      "retried r1 = retried r'" "job_type r1 = job_type r'" "data r1 = data r'"
    by blast
  with keeps_recover [of r1 m now db] show ?thesis by auto
qed

lemma keeps_complete:
  "r' \<in> set (snd (completeJob stringify now i res db)) \<Longrightarrow> \<exists>r \<in> set db. job_id r = job_id r' \<and> retried r = retried r'
            \<and> job_type r = job_type r' \<and> data r = data r'"
  unfolding completeJob_def snd_conv by (erule keeps_map_if [rotated]) simp

lemma keeps_fail:
  "r' \<in> set (snd (failJob now i e db)) \<Longrightarrow> \<exists>r \<in> set db. job_id r = job_id r' \<and> retried r = retried r'
            \<and> job_type r = job_type r' \<and> data r = data r'"
  unfolding failJob_def snd_conv by (erule keeps_map_if [rotated]) simp

lemma count_step_claim:
  assumes ok: "table_ok db" and n: "n \<le> (1::nat)"
    and cnt: "\<forall>r \<in> set db. job_id r = i \<longrightarrow> retried r = int n"
  shows "(if hands_out parse m i (Claim now) db then n + 1 else n) \<le> 1
       \<and> (\<forall>r \<in> set (snd (claimNextJob parse m now db)). job_id r = i \<longrightarrow>
            retried r = int (if hands_out parse m i (Claim now) db then n + 1 else n))"
proof -
  let ?db2 = "fail_timed_out m now (recover_timed_out m now db)"
  have ok2: "table_ok ?db2"
    using ok by (intro table_ok_fail_timed_out table_ok_recover)
  have cnt2: "retried r = int n" if "r \<in> set ?db2" "job_id r = i" for r
    using keeps_recovery [OF that(1)] that(2) cnt by auto
  show ?thesis
  proof (cases "next_waiting ?db2")
    case None
    then show ?thesis using n cnt2 by (simp add: claimNextJob_def hands_out_def)
  next
    case (Some j)
    then have j: "j \<in> set ?db2" "status j = Waiting"
      using next_waiting_Some by blast+
    have "row_ok j" using ok2 j(1) by (simp add: table_ok_def list_all_iff)
    with j(2) have rj: "retried j = 0" by (simp add: row_ok_def)
    show ?thesis
    proof (cases "parse (data j)")
      case None
      then show ?thesis using Some n cnt by (simp add: claimNextJob_def hands_out_def)
    next
      case (Some v)
      show ?thesis
      proof (cases "job_id j = i")
        case True
        with cnt2 [OF j(1)] rj have "n = 0" by simp
        then show ?thesis
          using Some \<open>next_waiting ?db2 = Some j\<close> True cnt2
          by (auto simp: claimNextJob_def hands_out_def mark_active_def)
      next
        case False
        then show ?thesis
          using Some \<open>next_waiting ?db2 = Some j\<close> n cnt2
          by (auto simp: claimNextJob_def hands_out_def mark_active_def)
      qed
    qed
  qed
qed

lemma count_step:
  assumes ok: "table_ok db" and n: "n \<le> (1::nat)"
    and cnt: "\<forall>r \<in> set db. job_id r = i \<longrightarrow> retried r = int n"
  shows "(if creates stringify i c db then 0
          else if hands_out parse m i c db then n + 1 else n) \<le> 1
       \<and> (\<forall>r \<in> set (apply_operation stringify parse m days c db). job_id r = i \<longrightarrow>
            retried r = int (if creates stringify i c db then 0
                             else if hands_out parse m i c db then n + 1 else n))"
proof (cases c)
  case (Insert uuid now ty d)
  then show ?thesis using n cnt
    by (auto simp: creates_def hands_out_def addJob_def new_job_def split: option.splits)
next
  case (Claim now)
  then show ?thesis using count_step_claim [OF ok n cnt, of parse m now]
    by (simp add: creates_def)
next
  case (Complete now k res)
  then show ?thesis using n cnt keeps_complete [of _ stringify now k res db]
    by (fastforce simp: creates_def hands_out_def)
next
  case (Fail now k e)
  then show ?thesis using n cnt keeps_fail [of _ now k e db]
    by (fastforce simp: creates_def hands_out_def)
next
  case (Sweep now)
  then show ?thesis using n cnt
    by (auto simp: creates_def hands_out_def cleanupOldJobs_def)
qed

lemma claims_from_le:
  assumes "table_ok db" and "n \<le> (1::nat)"
    and "\<forall>r \<in> set db. job_id r = i \<longrightarrow> retried r = int n"
  shows "claims_from stringify parse m days i cs db n \<le> 1"
  using assms
proof (induction cs arbitrary: db n)
  case Nil
  then show ?case by simp
next
  case (Cons c cs)
  let ?db' = "apply_operation stringify parse m days c db"
  let ?n' = "if creates stringify i c db then 0
             else if hands_out parse m i c db then n + 1 else n"
  from count_step [OF Cons.prems, of stringify c parse m days]
  have a: "?n' \<le> 1" and b: "\<forall>r \<in> set ?db'. job_id r = i \<longrightarrow> retried r = int ?n'"
    by blast+
  have "claims_from stringify parse m days i cs ?db' ?n' \<le> 1"
    by (rule Cons.IH [OF table_ok_apply [OF Cons.prems(1)] a b])
  then show ?case by simp
qed

lemma claims_of_le: "claims_of stringify parse m days i cs \<le> 1"
  unfolding claims_of_def by (rule claims_from_le) (simp_all add: table_ok_def)

section \<open>Timeout handling\<close>

text \<open>
  Claim C1 (evaluation of the code). Job \<open>a\<close> is inserted and claimed at time 0, so it is
  active with \<open>retried = 1\<close>, on its first attempt. At time 1801, past the timeout of 30
  minutes, the first UPDATE of \<open>claimNextJob\<close> leaves the row as it is, because it asks for
  \<open>retried = 0\<close>; the second UPDATE fails the job. The row is not reverted to waiting.
\<close>

theorem first_timeout_fails_job:
  "run Some Some 30 30 [Insert ''a'' 0 (ascii ''mail'') (ascii ''1''), Claim 0]
     = [\<lparr>job_id = ''a'', job_type = ascii ''mail'', data = ascii ''1'', status = Active, result = None,
         error = None, retried = 1, created_at = 0, started_at = Some 0,
         completed_at = None\<rparr>]
   \<and> recover_timed_out 30 1801 (run Some Some 30 30 [Insert ''a'' 0 (ascii ''mail'') (ascii ''1''), Claim 0])
     = run Some Some 30 30 [Insert ''a'' 0 (ascii ''mail'') (ascii ''1''), Claim 0]
   \<and> snd (claimNextJob Some 30 1801
            (run Some Some 30 30 [Insert ''a'' 0 (ascii ''mail'') (ascii ''1''), Claim 0]))
     = [\<lparr>job_id = ''a'', job_type = ascii ''mail'', data = ascii ''1'', status = Failed, result = None,
         error = Some (ascii ''Timed out after retry''), retried = 1, created_at = 0,
         started_at = Some 0, completed_at = Some 1801\<rparr>]"
  by (simp add: run_def addJob_def new_job_def claimNextJob_def recover_timed_out_def
      fail_timed_out_def next_waiting_def mark_active_def timed_out_def)

text \<open>
  Claim C2 (evaluation of the code). After one timeout the job is not handed out again:
  the call at time 1801 and the call after it both return nothing, and the job, which
  timed out once and was never retried, carries the error text of the retry.
\<close>

theorem timed_out_once_not_reclaimed:
  "fst (claimNextJob Some 30 1801
          (run Some Some 30 30 [Insert ''a'' 0 (ascii ''mail'') (ascii ''1''), Claim 0])) = Inr None
   \<and> fst (claimNextJob Some 30 1802
          (run Some Some 30 30 [Insert ''a'' 0 (ascii ''mail'') (ascii ''1''), Claim 0, Claim 1801]))
       = Inr None
   \<and> map (\<lambda>r. (status r, error r))
        (run Some Some 30 30 [Insert ''a'' 0 (ascii ''mail'') (ascii ''1''), Claim 0, Claim 1801, Claim 1802])
       = [(Failed, Some (ascii ''Timed out after retry''))]"
  by (simp add: run_def addJob_def new_job_def claimNextJob_def recover_timed_out_def
      fail_timed_out_def next_waiting_def mark_active_def timed_out_def)

section \<open>Invariants of reachable tables\<close>

text \<open>
  Claim C3, as stated, fails: after insert, claim and complete the job is completed, its
  \<open>started_at\<close> is still set and \<open>retried\<close> is 1, so the right-hand side holds of a
  job that is not active.
\<close>

theorem active_iff_started_counterexample:
  "\<not> (\<forall>r \<in> set (run Some Some 30 30
                    [Insert ''a'' 0 (ascii ''mail'') (ascii ''1''), Claim 0, Complete 1 ''a'' (ascii ''2'')]).
        (status r = Active) = (started_at r \<noteq> None \<and> 1 \<le> retried r))"
  by (simp add: run_def addJob_def new_job_def claimNextJob_def recover_timed_out_def
      fail_timed_out_def next_waiting_def mark_active_def timed_out_def completeJob_def)

text \<open>
  Claim C3, amended. In every table reachable through insert, claimNext, complete, fail
  and sweep, an active job has \<open>started_at\<close> set and \<open>retried\<close> at least 1; and a job has
  \<open>started_at\<close> set and \<open>retried\<close> at least 1 if and only if its status is active,
  completed or failed (completion and failure keep \<open>started_at\<close>).
\<close>

theorem started_iff_not_waiting:
  assumes "r \<in> set (run stringify parse minutes days cs)"
  shows "(status r = Active \<longrightarrow> started_at r \<noteq> None \<and> 1 \<le> retried r)
       \<and> ((status r = Active \<or> status r = Completed \<or> status r = Failed)
            = (started_at r \<noteq> None \<and> 1 \<le> retried r))"
proof -
  have "table_ok (run stringify parse minutes days cs)" by (rule table_ok_run)
  with assms have "row_ok r" by (simp add: table_ok_def list_all_iff)
  then show ?thesis by (cases "status r") (auto simp: row_ok_def)
qed

theorem started_iff_not_waiting_witness:
  "hd (run Some Some 30 30 [Insert ''a'' 0 (ascii ''mail'') (ascii ''1''), Claim 0, Complete 1 ''a'' (ascii ''2'')])
     \<in> set (run Some Some 30 30 [Insert ''a'' 0 (ascii ''mail'') (ascii ''1''), Claim 0, Complete 1 ''a'' (ascii ''2'')])
   \<and> status (hd (run Some Some 30 30
        [Insert ''a'' 0 (ascii ''mail'') (ascii ''1''), Claim 0, Complete 1 ''a'' (ascii ''2'')])) = Completed
   \<and> started_at (hd (run Some Some 30 30
        [Insert ''a'' 0 (ascii ''mail'') (ascii ''1''), Claim 0, Complete 1 ''a'' (ascii ''2'')])) \<noteq> None
   \<and> 1 \<le> retried (hd (run Some Some 30 30
        [Insert ''a'' 0 (ascii ''mail'') (ascii ''1''), Claim 0, Complete 1 ''a'' (ascii ''2'')]))"
proof -
  let ?db = "run Some Some 30 30 [Insert ''a'' 0 (ascii ''mail'') (ascii ''1''), Claim 0, Complete 1 ''a'' (ascii ''2'')]"
  have m: "hd ?db \<in> set ?db" and s: "status (hd ?db) = Completed"
    by (simp_all add: run_def addJob_def new_job_def claimNextJob_def recover_timed_out_def
        fail_timed_out_def next_waiting_def mark_active_def timed_out_def completeJob_def)
  show ?thesis using m s started_iff_not_waiting [OF m] by blast
qed

text \<open>
  Claim C4. In every reachable table the retry counter of every job is at most 1, and the
  job that carries a given id has been handed to a worker at most twice.
\<close>

theorem retried_at_most_one:
  "(\<forall>r \<in> set (run stringify parse minutes days cs). retried r \<le> 1)
   \<and> claims_of stringify parse minutes days i cs \<le> 2"
proof
  have ok: "table_ok (run stringify parse minutes days cs)" by (rule table_ok_run)
  show "\<forall>r \<in> set (run stringify parse minutes days cs). retried r \<le> 1"
  proof
    fix r assume "r \<in> set (run stringify parse minutes days cs)"
    with ok have "row_ok r" by (simp add: table_ok_def list_all_iff)
    then show "retried r \<le> 1" by (cases "status r") (auto simp: row_ok_def)
  qed
  have "claims_of stringify parse minutes days i cs \<le> 1" by (rule claims_of_le)
  then show "claims_of stringify parse minutes days i cs \<le> 2" by simp
qed

theorem retried_at_most_one_witness:
  "hd (run Some Some 30 30 [Insert ''a'' 0 (ascii ''mail'') (ascii ''1''), Claim 0, Claim 1801])
     \<in> set (run Some Some 30 30 [Insert ''a'' 0 (ascii ''mail'') (ascii ''1''), Claim 0, Claim 1801])
   \<and> retried (hd (run Some Some 30 30 [Insert ''a'' 0 (ascii ''mail'') (ascii ''1''), Claim 0, Claim 1801])) \<le> 1
   \<and> claims_of Some Some 30 30 ''a'' [Insert ''a'' 0 (ascii ''mail'') (ascii ''1''), Claim 0, Claim 1801] \<le> 2"
proof -
  let ?db = "run Some Some 30 30 [Insert ''a'' 0 (ascii ''mail'') (ascii ''1''), Claim 0, Claim 1801]"
  have m: "hd ?db \<in> set ?db"
    by (simp add: run_def addJob_def new_job_def claimNextJob_def recover_timed_out_def
        fail_timed_out_def next_waiting_def mark_active_def timed_out_def)
  show ?thesis
    using m retried_at_most_one [of Some Some 30 30
        "[Insert ''a'' 0 (ascii ''mail'') (ascii ''1''), Claim 0, Claim 1801]" "''a''"]
    by blast
qed

section \<open>Order of claims\<close>

text \<open>
  Claim C6. Whenever some job is waiting once the two timeout UPDATEs have run, and the
  stored payloads are texts that \<^verbatim>\<open>JSON.parse\<close> accepts (as everything \<open>addJob\<close> stores
  is), \<open>claimNextJob\<close> returns a job: it is one of the jobs waiting at that moment, and no
  job waiting at that moment has a smaller \<open>created_at\<close>.
\<close>

theorem claim_takes_oldest_waiting:
  assumes w: "w \<in> set (fail_timed_out m now (recover_timed_out m now db))"
    and ws: "status w = Waiting"
    and p: "\<forall>r \<in> set db. parse (data r) \<noteq> None"
  shows "\<exists>j c db'. claimNextJob parse m now db = (Inr (Some c), db')
       \<and> j \<in> set (fail_timed_out m now (recover_timed_out m now db))
       \<and> status j = Waiting
       \<and> claimed_id c = job_id j \<and> claimed_type c = job_type j
       \<and> parse (data j) = Some (claimed_data c)
       \<and> (\<forall>r \<in> set (fail_timed_out m now (recover_timed_out m now db)).
             status r = Waiting \<longrightarrow> created_at j \<le> created_at r)"
proof -
  let ?db2 = "fail_timed_out m now (recover_timed_out m now db)"
  have "next_waiting ?db2 \<noteq> None"
    using next_waiting_None [of ?db2 w] w ws by blast
  then obtain j where nj: "next_waiting ?db2 = Some j" by blast
  note sel = next_waiting_Some [OF nj]
  from sel have "j \<in> set ?db2" by blast
  from keeps_recovery [OF this] obtain r where "r \<in> set db" "data r = data j" by blast
  with p obtain v where v: "parse (data j) = Some v" by force
  let ?c = "\<lparr>claimed_id = job_id j, claimed_type = job_type j, claimed_data = v\<rparr>"
  have "claimNextJob parse m now db = (Inr (Some ?c), mark_active (job_id j) now ?db2)"
    using nj v by (simp add: claimNextJob_def)
  moreover have "claimed_id ?c = job_id j \<and> claimed_type ?c = job_type j
      \<and> parse (data j) = Some (claimed_data ?c)" using v by simp
  ultimately show ?thesis using sel by blast
qed

theorem claim_takes_oldest_waiting_witness:
  "\<exists>(j::job) c db'. claimNextJob Some 30 10
        [new_job ''a'' (ascii ''mail'') (ascii ''1'') 7, new_job ''b'' (ascii ''mail'') (ascii ''2'') 3] = (Inr (Some c), db')
     \<and> status j = Waiting \<and> claimed_id c = job_id j \<and> created_at j \<le> 3"
proof -
  let ?db = "[new_job ''a'' (ascii ''mail'') (ascii ''1'') 7, new_job ''b'' (ascii ''mail'') (ascii ''2'') 3]"
  let ?b = "new_job ''b'' (ascii ''mail'') (ascii ''2'') 3"
  have w: "?b \<in> set (fail_timed_out 30 10 (recover_timed_out 30 10 ?db))"
    by (simp add: new_job_def recover_timed_out_def fail_timed_out_def)
  have ws: "status ?b = Waiting" and cb: "created_at ?b = 3"
    by (simp_all add: new_job_def)
  have p: "\<forall>r \<in> set ?db. Some (data r) \<noteq> None" by simp
  from claim_takes_oldest_waiting [OF w ws p] obtain j c db'
    where all: "claimNextJob Some 30 10 ?db = (Inr (Some c), db')
       \<and> j \<in> set (fail_timed_out 30 10 (recover_timed_out 30 10 ?db))
       \<and> status j = Waiting
       \<and> claimed_id c = job_id j \<and> claimed_type c = job_type j
       \<and> Some (data j) = Some (claimed_data c)
       \<and> (\<forall>r \<in> set (fail_timed_out 30 10 (recover_timed_out 30 10 ?db)).
             status r = Waiting \<longrightarrow> created_at j \<le> created_at r)"
    by (elim exE) (rule that)
  from all have run: "claimNextJob Some 30 10 ?db = (Inr (Some c), db')"
    and j: "status j = Waiting" "claimed_id c = job_id j"
    and least: "\<forall>r \<in> set (fail_timed_out 30 10 (recover_timed_out 30 10 ?db)).
             status r = Waiting \<longrightarrow> created_at j \<le> created_at r"
    by simp_all
  from least w have "status ?b = Waiting \<longrightarrow> created_at j \<le> created_at ?b" by (rule bspec)
  with ws have "created_at j \<le> created_at ?b" by simp
  with cb have "created_at j \<le> 3" by simp
  with run j have found: "claimNextJob Some 30 10 ?db = (Inr (Some c), db')
     \<and> status j = Waiting \<and> claimed_id c = job_id j \<and> created_at j \<le> 3"
    by simp
  show ?thesis
    by (rule exI [of _ j], rule exI [of _ c], rule exI [of _ db']) (rule found)
qed

section \<open>Cleanup\<close>

text \<open>
  Claim C7. \<open>cleanupOldJobs\<close> deletes a row if and only if its status is completed or
  failed and \<open>now - completed_at\<close> exceeds the retention (\<open>days\<close> days, in seconds). Waiting
  and active rows stay, nothing is added, and the number returned is the number of rows
  deleted.
\<close>

theorem sweep_deletes_aged_terminal:
  assumes "cleanupOldJobs days now db = (n, db')"
  shows "(\<forall>r \<in> set db. (r \<notin> set db') =
            ((status r = Completed \<or> status r = Failed)
             \<and> (\<exists>t. completed_at r = Some t \<and> 86400 * int days < now - t)))
       \<and> (\<forall>r \<in> set db. status r = Waiting \<or> status r = Active \<longrightarrow> r \<in> set db')
       \<and> set db' \<subseteq> set db
       \<and> n + length db' = length db"
proof -
  have aged: "aged_terminal days now r =
      ((status r = Completed \<or> status r = Failed)
       \<and> (\<exists>t. completed_at r = Some t \<and> 86400 * int days < now - t))" for r
    by (cases "completed_at r") (auto simp: aged_terminal_def)
  from assms have n: "n = length (filter (aged_terminal days now) db)"
    and db': "db' = filter (\<lambda>r. \<not> aged_terminal days now r) db"
    by (simp_all add: cleanupOldJobs_def)
  have "n + length db' = length db"
    unfolding n db' by (rule sum_length_filter_compl)
  moreover have "\<forall>r \<in> set db. (r \<notin> set db') =
            ((status r = Completed \<or> status r = Failed)
             \<and> (\<exists>t. completed_at r = Some t \<and> 86400 * int days < now - t))"
    unfolding db' using aged by simp
  moreover have "\<forall>r \<in> set db. status r = Waiting \<or> status r = Active \<longrightarrow> r \<in> set db'"
    unfolding db' by (auto simp: aged_terminal_def)
  moreover have "set db' \<subseteq> set db" unfolding db' by auto
  ultimately show ?thesis by blast
qed

theorem sweep_deletes_aged_terminal_witness:
  "fst (cleanupOldJobs 30 2592002
          (run Some Some 30 30
             [Insert ''a'' 0 (ascii ''mail'') (ascii ''1''), Claim 0, Complete 1 ''a'' (ascii ''2''),
              Insert ''b'' 5 (ascii ''mail'') (ascii ''3'')]))
     + length (snd (cleanupOldJobs 30 2592002
          (run Some Some 30 30
             [Insert ''a'' 0 (ascii ''mail'') (ascii ''1''), Claim 0, Complete 1 ''a'' (ascii ''2''),
              Insert ''b'' 5 (ascii ''mail'') (ascii ''3'')])))
     = length (run Some Some 30 30
             [Insert ''a'' 0 (ascii ''mail'') (ascii ''1''), Claim 0, Complete 1 ''a'' (ascii ''2''),
              Insert ''b'' 5 (ascii ''mail'') (ascii ''3'')])
   \<and> hd (run Some Some 30 30
             [Insert ''a'' 0 (ascii ''mail'') (ascii ''1''), Claim 0, Complete 1 ''a'' (ascii ''2''),
              Insert ''b'' 5 (ascii ''mail'') (ascii ''3'')])
       \<notin> set (snd (cleanupOldJobs 30 2592002
          (run Some Some 30 30
             [Insert ''a'' 0 (ascii ''mail'') (ascii ''1''), Claim 0, Complete 1 ''a'' (ascii ''2''),
              Insert ''b'' 5 (ascii ''mail'') (ascii ''3'')])))
   \<and> new_job ''b'' (ascii ''mail'') (ascii ''3'') 5
       \<in> set (snd (cleanupOldJobs 30 2592002
          (run Some Some 30 30
             [Insert ''a'' 0 (ascii ''mail'') (ascii ''1''), Claim 0, Complete 1 ''a'' (ascii ''2''),
              Insert ''b'' 5 (ascii ''mail'') (ascii ''3'')])))"
proof -
  let ?db = "run Some Some 30 30
             [Insert ''a'' 0 (ascii ''mail'') (ascii ''1''), Claim 0, Complete 1 ''a'' (ascii ''2''),
              Insert ''b'' 5 (ascii ''mail'') (ascii ''3'')]"
  let ?b = "new_job ''b'' (ascii ''mail'') (ascii ''3'') 5"
  have db: "?db = [\<lparr>job_id = ''a'', job_type = ascii ''mail'', data = ascii ''1'', status = Completed,
       result = Some (ascii ''2''), error = None, retried = 1, created_at = 0,
       started_at = Some 0, completed_at = Some 1\<rparr>, ?b]"
    by (simp add: run_def addJob_def new_job_def claimNextJob_def recover_timed_out_def
        fail_timed_out_def next_waiting_def mark_active_def timed_out_def completeJob_def)
  have a: "hd ?db \<in> set ?db" "status (hd ?db) = Completed"
    "completed_at (hd ?db) = Some 1" "86400 * int 30 < 2592002 - 1"
    unfolding db by simp_all
  have b: "?b \<in> set ?db" "status ?b = Waiting"
    unfolding db by (simp_all add: new_job_def)
  have e: "cleanupOldJobs 30 2592002 ?db
      = (fst (cleanupOldJobs 30 2592002 ?db), snd (cleanupOldJobs 30 2592002 ?db))"
    by simp
  note sweep = sweep_deletes_aged_terminal [OF e]
  from sweep have gone: "\<forall>r \<in> set ?db. (r \<notin> set (snd (cleanupOldJobs 30 2592002 ?db))) =
            ((status r = Completed \<or> status r = Failed)
             \<and> (\<exists>t. completed_at r = Some t \<and> 86400 * int 30 < 2592002 - t))"
    by (rule conjunct1)
  from sweep have kept: "\<forall>r \<in> set ?db. status r = Waiting \<or> status r = Active
            \<longrightarrow> r \<in> set (snd (cleanupOldJobs 30 2592002 ?db))"
    by (rule conjunct2 [THEN conjunct1])
  from sweep have count: "fst (cleanupOldJobs 30 2592002 ?db)
      + length (snd (cleanupOldJobs 30 2592002 ?db)) = length ?db"
    by (rule conjunct2 [THEN conjunct2, THEN conjunct2])
  from gone a(1) have "(hd ?db \<notin> set (snd (cleanupOldJobs 30 2592002 ?db))) =
            ((status (hd ?db) = Completed \<or> status (hd ?db) = Failed)
             \<and> (\<exists>t. completed_at (hd ?db) = Some t \<and> 86400 * int 30 < 2592002 - t))"
    by (rule bspec)
  with a(2,3,4) have first: "hd ?db \<notin> set (snd (cleanupOldJobs 30 2592002 ?db))"
    by simp
  from kept b(1) have "status ?b = Waiting \<or> status ?b = Active
      \<longrightarrow> ?b \<in> set (snd (cleanupOldJobs 30 2592002 ?db))"
    by (rule bspec)
  with b(2) have second: "?b \<in> set (snd (cleanupOldJobs 30 2592002 ?db))"
    by simp
  from count first second show ?thesis by (intro conjI)
qed

section \<open>Payload round trip\<close>




section \<open>Validation of the type\<close>

text \<open>
  Claim C9. When the \<^verbatim>\<open>type\<close> of the request body is the empty string or is not a string
  at all (a missing \<^verbatim>\<open>type\<close> included), \<open>validateJobInput\<close> returns an error result, and
  the POST handler answers 400 with that error and leaves the table as it was: no row is
  created.
\<close>

theorem empty_type_rejected:
  assumes "\<forall>s. get_property body ''type'' = JStr s \<longrightarrow> s = []"
  shows "\<exists>msg. validateJobInput stringify maxPayloadBytes body = Inr (Error_result msg)
       \<and> POST stringify maxPayloadBytes uuid now (Some body) db = (Inr (Bad_request msg), db)"
proof -
  have bad: "\<not> truthy (get_property body ''type'') \<or> typeof (get_property body ''type'') \<noteq> ''string''"
    using assms by (cases "get_property body ''type''") simp_all
  show ?thesis
  proof (cases "\<not> truthy body \<or> typeof body \<noteq> ''object''")
    case True
    then have "validateJobInput stringify maxPayloadBytes body
       = Inr (Error_result ''Request body must be an object'')"
      by (simp add: validateJobInput_def)
    then show ?thesis by (simp add: POST_def)
  next
    case False
    with bad have "validateJobInput stringify maxPayloadBytes body
       = Inr (Error_result ''type must be a non-empty string'')"
      by (simp add: validateJobInput_def Let_def)
    then show ?thesis by (simp add: POST_def)
  qed
qed

theorem empty_type_rejected_witness:
  "(\<exists>msg. validateJobInput (\<lambda>v. Some (ascii ''1'')) 1048576
             (JObj [(''type'', JStr []), (''data'', JNum 1)]) = Inr (Error_result msg)
        \<and> POST (\<lambda>v. Some (ascii ''1'')) 1048576 ''a'' 0
             (Some (JObj [(''type'', JStr []), (''data'', JNum 1)])) []
            = (Inr (Bad_request msg), []))
   \<and> (\<exists>msg. validateJobInput (\<lambda>v. Some (ascii ''1'')) 1048576
             (JObj [(''type'', JNum 7), (''data'', JNum 1)]) = Inr (Error_result msg)
        \<and> POST (\<lambda>v. Some (ascii ''1'')) 1048576 ''a'' 0
             (Some (JObj [(''type'', JNum 7), (''data'', JNum 1)])) []
            = (Inr (Bad_request msg), []))"
  by (intro conjI empty_type_rejected) simp_all

section \<open>Counts by status\<close>

lemma map_of_keyed:
  "inj g \<Longrightarrow> map_of (map (\<lambda>s. (g s, f s)) xs) (g s) = (if s \<in> set xs then Some (f s) else None)"
  by (induction xs) (auto dest: injD)

lemma inj_status_text: "inj status_text"
proof (rule injI)
  fix a b assume "status_text a = status_text b"
  then show "a = b" by (cases a; cases b) simp_all
qed

text \<open>
  Claim C10. For every table, the empty one included, the object that \<open>getJobCounts\<close>
  returns has exactly the four properties \<^verbatim>\<open>waiting\<close>, \<^verbatim>\<open>active\<close>, \<^verbatim>\<open>completed\<close> and
  \<^verbatim>\<open>failed\<close>; each holds the number of rows of that status, which is 0 for a status that
  no row has. The function reads the table and returns no table: it changes no row.
\<close>

theorem counts_total:
  "getJobCounts db (status_text s) = Some (length (filter (\<lambda>r. status r = s) db))
   \<and> (s \<notin> set (map status db) \<longrightarrow> getJobCounts db (status_text s) = Some 0)
   \<and> dom (getJobCounts db) = {''waiting'', ''active'', ''completed'', ''failed''}"
proof -
  let ?n = "\<lambda>s. length (filter (\<lambda>r. status r = s) db)"
  have rows: "map_of (count_rows db) (status_text s) =
                (if s \<in> set (map status db) then Some (?n s) else None)"
    unfolding count_rows_def using map_of_keyed [OF inj_status_text, of ?n "remdups (map status db)" s]
    by simp
  have zero: "?n s = 0" if "s \<notin> set (map status db)"
    using that by (induction db) auto
  have val: "getJobCounts db (status_text s) = Some (?n s)"
  proof (cases "s \<in> set (map status db)")
    case True
    then show ?thesis using rows by (simp add: getJobCounts_def map_add_def)
  next
    case False
    then show ?thesis using rows zero
      by (cases s) (simp_all add: getJobCounts_def map_add_def)
  qed
  have "fst ` set (count_rows db) \<subseteq> {''waiting'', ''active'', ''completed'', ''failed''}"
  proof
    fix k assume "k \<in> fst ` set (count_rows db)"
    then obtain s' where "k = status_text s'" by (auto simp: count_rows_def)
    then show "k \<in> {''waiting'', ''active'', ''completed'', ''failed''}"
      by (cases s') simp_all
  qed
  then have "dom (getJobCounts db) = {''waiting'', ''active'', ''completed'', ''failed''}"
    by (auto simp: getJobCounts_def dom_map_of_conv_image_fst)
  with val zero show ?thesis by simp
qed

theorem counts_total_witness:
  "getJobCounts [] ''waiting'' = Some 0 \<and> getJobCounts [] ''active'' = Some 0
   \<and> getJobCounts [] ''completed'' = Some 0 \<and> getJobCounts [] ''failed'' = Some 0
   \<and> dom (getJobCounts []) = {''waiting'', ''active'', ''completed'', ''failed''}"
  using counts_total [of "[]" Waiting] counts_total [of "[]" Active]
    counts_total [of "[]" Completed] counts_total [of "[]" Failed]
  by simp

end
